theory Spec2Isabelle
  imports Main "HOL-Library.Sublist"
begin

section \<open>Python strings and values\<close>

text \<open>
  A Python \<open>str\<close> is a sequence of Unicode code points; a code point is a natural number.
  \<open>lit\<close> turns an ASCII literal into such a sequence.
\<close>

type_synonym codepoint = nat
type_synonym ustr = "codepoint list"

definition lit :: "string \<Rightarrow> ustr" where
  "lit s = map of_char s"

text \<open>
  The values a caller can pass where the code tests \<open>isinstance(text, str)\<close>: a string,
  \<open>None\<close>, or a number.
\<close>

datatype pyval = PyStr ustr | PyNone | PyInt int

datatype error = KeyError | AttributeError

fun truthy :: "pyval \<Rightarrow> bool" where
  "truthy (PyStr s) = (s \<noteq> [])"
| "truthy PyNone = False"
| "truthy (PyInt i) = (i \<noteq> 0)"

fun isinstance_str :: "pyval \<Rightarrow> bool" where
  "isinstance_str (PyStr s) = True"
| "isinstance_str PyNone = False"
| "isinstance_str (PyInt i) = False"

subsection \<open>Character classes of the platform\<close>

text \<open>
  CPython's \<open>Py_UNICODE_ISSPACE\<close>, which \<open>\s\<close> in a \<open>str\<close> pattern, \<open>str.strip()\<close> and
  \<open>str.isspace()\<close> all use: U+0009..U+000D, U+001C..U+0020, U+0085, U+00A0, U+1680,
  U+2000..U+200A, U+2028, U+2029, U+202F, U+205F, U+3000.
\<close>

definition is_space :: "codepoint \<Rightarrow> bool" where
  "is_space c \<longleftrightarrow>
     (9 \<le> c \<and> c \<le> 13) \<or> (28 \<le> c \<and> c \<le> 32) \<or> c = 133 \<or> c = 160 \<or> c = 5760 \<or>
     (8192 \<le> c \<and> c \<le> 8202) \<or> c = 8232 \<or> c = 8233 \<or> c = 8239 \<or> c = 8287 \<or> c = 12288"

text \<open>
  The tables of the Unicode character database that the code reaches through
  \<open>str.lower\<close> and \<open>unicodedata.normalize\<close> are not part of the repository. On ASCII
  their values are fixed and written out below; beyond ASCII they are taken from a
  parameter.
\<close>

record ucd =
  ucd_lower :: "ustr \<Rightarrow> ustr"
  ucd_nfc :: "ustr \<Rightarrow> ustr"

definition is_ascii :: "ustr \<Rightarrow> bool" where
  "is_ascii s = list_all (\<lambda>c. c < 128) s"

definition ascii_lower :: "codepoint \<Rightarrow> codepoint" where
  "ascii_lower c = (if 65 \<le> c \<and> c \<le> 90 then c + 32 else c)"

definition py_lower :: "ucd \<Rightarrow> ustr \<Rightarrow> ustr" where
  "py_lower U s = (if is_ascii s then map ascii_lower s else ucd_lower U s)"

text \<open>
  \<open>str.isdigit\<close> accepts the characters whose Unicode numeric type is Digit or Decimal:
  the decimal digits of every script and also digit characters that are not decimal,
  such as the superscripts U+00B2, U+00B3, U+00B9 and the circled digits from U+2460.
  The table is written out as ranges of code points, first and last included (Unicode
  14.0.0, the database of CPython 3.11).
\<close>

definition digit_ranges :: "(codepoint \<times> codepoint) list" where
  "digit_ranges =
    [(0x30, 0x39), (0xB2, 0xB3), (0xB9, 0xB9), (0x660, 0x669), (0x6F0, 0x6F9),
     (0x7C0, 0x7C9), (0x966, 0x96F), (0x9E6, 0x9EF), (0xA66, 0xA6F), (0xAE6, 0xAEF),
     (0xB66, 0xB6F), (0xBE6, 0xBEF), (0xC66, 0xC6F), (0xCE6, 0xCEF), (0xD66, 0xD6F),
     (0xDE6, 0xDEF), (0xE50, 0xE59), (0xED0, 0xED9), (0xF20, 0xF29), (0x1040, 0x1049),
     (0x1090, 0x1099), (0x1369, 0x1371), (0x17E0, 0x17E9), (0x1810, 0x1819),
     (0x1946, 0x194F), (0x19D0, 0x19DA), (0x1A80, 0x1A89), (0x1A90, 0x1A99),
     (0x1B50, 0x1B59), (0x1BB0, 0x1BB9), (0x1C40, 0x1C49), (0x1C50, 0x1C59),
     (0x2070, 0x2070), (0x2074, 0x2079), (0x2080, 0x2089), (0x2460, 0x2468),
     (0x2474, 0x247C), (0x2488, 0x2490), (0x24EA, 0x24EA), (0x24F5, 0x24FD),
     (0x24FF, 0x24FF), (0x2776, 0x277E), (0x2780, 0x2788), (0x278A, 0x2792),
     (0xA620, 0xA629), (0xA8D0, 0xA8D9), (0xA900, 0xA909), (0xA9D0, 0xA9D9),
     (0xA9F0, 0xA9F9), (0xAA50, 0xAA59), (0xABF0, 0xABF9), (0xFF10, 0xFF19),
     (0x104A0, 0x104A9), (0x10A40, 0x10A43), (0x10D30, 0x10D39), (0x10E60, 0x10E68),
     (0x11052, 0x1105A), (0x11066, 0x1106F), (0x110F0, 0x110F9), (0x11136, 0x1113F),
     (0x111D0, 0x111D9), (0x112F0, 0x112F9), (0x11450, 0x11459), (0x114D0, 0x114D9),
     (0x11650, 0x11659), (0x116C0, 0x116C9), (0x11730, 0x11739), (0x118E0, 0x118E9),
     (0x11950, 0x11959), (0x11C50, 0x11C59), (0x11D50, 0x11D59), (0x11DA0, 0x11DA9),
     (0x16A60, 0x16A69), (0x16AC0, 0x16AC9), (0x16B50, 0x16B59), (0x1D7CE, 0x1D7FF),
     (0x1E140, 0x1E149), (0x1E2F0, 0x1E2F9), (0x1E950, 0x1E959), (0x1F100, 0x1F10A),
     (0x1FBF0, 0x1FBF9)]"

definition in_ranges :: "(codepoint \<times> codepoint) list \<Rightarrow> codepoint \<Rightarrow> bool" where
  "in_ranges rs c = list_ex (\<lambda>(lo, hi). lo \<le> c \<and> c \<le> hi) rs"

definition cp_isdigit :: "codepoint \<Rightarrow> bool" where
  "cp_isdigit c = in_ranges digit_ranges c"

definition py_isdigit :: "ustr \<Rightarrow> bool" where
  "py_isdigit s = (s \<noteq> [] \<and> list_all cp_isdigit s)"

definition py_isspace :: "ustr \<Rightarrow> bool" where
  "py_isspace s = (s \<noteq> [] \<and> list_all is_space s)"

definition py_strip :: "ustr \<Rightarrow> ustr" where
  "py_strip s = rev (dropWhile is_space (rev (dropWhile is_space s)))"

text \<open>\<open>s.replace(old, new)\<close> for a one-character \<open>old\<close>.\<close>

definition py_replace_chr :: "codepoint \<Rightarrow> ustr \<Rightarrow> ustr \<Rightarrow> ustr" where
  "py_replace_chr old new s = concat (map (\<lambda>c. if c = old then new else [c]) s)"

text \<open>\<open>s.split(sep)\<close> for a one-character \<open>sep\<close>: never empty, one piece more than
  there are separators.\<close>

fun py_split_chr :: "codepoint \<Rightarrow> ustr \<Rightarrow> ustr list" where
  "py_split_chr sep [] = [[]]"
| "py_split_chr sep (c # cs) =
     (if c = sep then [] # py_split_chr sep cs
      else (case py_split_chr sep cs of
              [] \<Rightarrow> [[c]]
            | p # ps \<Rightarrow> (c # p) # ps))"

section \<open>Regular expressions as the code uses them\<close>

text \<open>
  Every pattern of the repository is a sequence of one-character items, each with a
  quantifier: a literal (\<open>\{\<close>), a class (\<open>[...]\<close>, \<open>[^}]\<close>), \<open>.\<close> (any character but
  newline) or \<open>\s\<close>; taken once, \<open>*\<close>, \<open>+\<close> (both greedy) or \<open>*?\<close> (lazy).
\<close>

datatype cls = Chr codepoint | AnyOf "codepoint list" | NoneOf "codepoint list" | Dot | Space

fun cls_matches :: "cls \<Rightarrow> codepoint \<Rightarrow> bool" where
  "cls_matches (Chr a) c = (c = a)"
| "cls_matches (AnyOf cs) c = (c \<in> set cs)"
| "cls_matches (NoneOf cs) c = (c \<notin> set cs)"
| "cls_matches Dot c = (c \<noteq> 10)"
| "cls_matches Space c = is_space c"

datatype quant = One | Star | Plus | LazyStar

type_synonym regex = "(cls \<times> quant) list"

text \<open>
  The backtracking matcher, anchored at the start of the input. It returns what is left of
  the input after the first match in the engine's order of preference: a greedy item takes
  a character before it tries the rest of the pattern, a lazy one tries the rest first.
  A match is accepted only if it leaves fewer than \<open>n\<close> characters: \<open>n\<close> is the length of
  the input plus one for any match, and the length of the input where the engine demands
  a non-empty match.
\<close>

fun re_match :: "nat \<Rightarrow> regex \<Rightarrow> ustr \<Rightarrow> ustr option" where
  "re_match n [] s = (if length s < n then Some s else None)"
| "re_match n ((c, One) # r) [] = None"
| "re_match n ((c, One) # r) (x # xs) = (if cls_matches c x then re_match n r xs else None)"
| "re_match n ((c, Plus) # r) [] = None"
| "re_match n ((c, Plus) # r) (x # xs) =
     (if cls_matches c x then re_match n ((c, Star) # r) xs else None)"
| "re_match n ((c, Star) # r) [] = re_match n r []"
| "re_match n ((c, Star) # r) (x # xs) =
     (if cls_matches c x
      then (case re_match n ((c, Star) # r) xs of
              Some rest \<Rightarrow> Some rest
            | None \<Rightarrow> re_match n r (x # xs))
      else re_match n r (x # xs))"
| "re_match n ((c, LazyStar) # r) [] = re_match n r []"
| "re_match n ((c, LazyStar) # r) (x # xs) =
     (case re_match n r (x # xs) of
        Some rest \<Rightarrow> Some rest
      | None \<Rightarrow> if cls_matches c x then re_match n ((c, LazyStar) # r) xs else None)"

text \<open>
  \<open>re.sub(pattern, repl, s)\<close>: scan from the left; where the pattern matches, emit \<open>repl\<close>
  and go on after the match; where it does not, copy one character. After an empty match
  the engine looks at the same position again and demands a non-empty match there.
\<close>

function re_sub_at :: "bool \<Rightarrow> regex \<Rightarrow> ustr \<Rightarrow> ustr \<Rightarrow> ustr" where
  "re_sub_at adv p repl s =
     (case re_match (if adv then length s else Suc (length s)) p s of
        Some rest \<Rightarrow> repl @ re_sub_at (length rest = length s) p repl rest
      | None \<Rightarrow> (case s of [] \<Rightarrow> [] | x # xs \<Rightarrow> x # re_sub_at False p repl xs))"
  by pat_completeness auto
termination
proof -
  have shorter: "length rest < n \<and> length rest \<le> length s"
    if "re_match n p s = Some rest" for n p s rest
    using that
    by (induction n p s rule: re_match.induct) (auto split: if_splits option.splits)
  show ?thesis
    by (relation "measures [\<lambda>(adv, p, repl, s). length s,
                            \<lambda>(adv, p, repl, s). if adv then 0 else 1]")
      (auto dest: shorter split: if_splits)
qed

declare re_sub_at.simps [simp del]

definition re_sub :: "regex \<Rightarrow> ustr \<Rightarrow> ustr \<Rightarrow> ustr" where
  "re_sub p repl s = re_sub_at False p repl s"

section \<open>text_tools.py\<close>

subsection \<open>The punctuation table\<close>

text \<open>
  Each pattern of \<open>PUNCTUATION_PATTERNS\<close> is one character class; the lists below are the
  members of the four classes in the order the source writes them (an escaped character
  stands for itself). The ASCII part is
  \<open>! " # $ % & ' ( ) * + , - . / : ; < = > ? @ [ \ ] ^ _ ` { | } ~\<close>.
  In the \<open>zh\<close> entry the raw literal ends after U+00A8 and is followed by a second
  literal, which Python concatenates: the two \<open>"\<close> that open it are members again.
\<close>

definition punct_default :: "codepoint list" where
  "punct_default =
    [33, 34, 35, 36, 37, 38, 39, 40, 41, 42, 43, 44, 45, 46, 47, 58, 59, 60, 61, 62, 63,
     64, 91, 92, 93, 94, 95, 96, 123, 124, 125, 126]"

definition punct_zh :: "codepoint list" where
  "punct_zh =
    [33, 34, 35, 36, 37, 38, 39, 40, 41, 42, 43, 44, 45, 46, 47, 58, 59, 60, 61, 62, 63,
     64, 91, 92, 93, 94, 95, 96, 123, 124, 125, 126,
     0x3002, 0xFF0C, 0x3001, 0xFF1B, 0xFF1A, 0xFF1F, 0xFF01, 0x2026, 0x2014, 0xB7, 0x2C9,
     0xA8, 34, 34, 0x3005, 0xFF5E, 0x2016, 0x2236, 0xFF02, 0xFF07, 0xFF40, 0xFF5C, 0x3003,
     0x3014, 0x3015, 0x3008, 0x3009, 0x300A, 0x300B, 0x300C, 0x300D, 0x300E, 0x300F,
     0xFF0E, 0x3016, 0x3017, 0x3010, 0x3011, 0xFF08, 0xFF09, 0xFF3B, 0xFF3D, 0xFF5B, 0xFF5D]"

definition punct_ja :: "codepoint list" where
  "punct_ja =
    [33, 34, 35, 36, 37, 38, 39, 40, 41, 42, 43, 44, 45, 46, 47, 58, 59, 60, 61, 62, 63,
     64, 91, 92, 93, 94, 95, 96, 123, 124, 125, 126,
     0x3002, 0x3001, 0x30FB, 0xFF1B, 0xFF1A, 0xFF1F, 0xFF01, 0x2026, 0x30FC, 0xFF5E,
     0x301C, 0x300C, 0x300D, 0x300E, 0x300F, 0xFF08, 0xFF09, 0xFF5B, 0xFF5D, 0xFF3B,
     0xFF3D, 0x3010, 0x3011, 0x300A, 0x300B, 0x3008, 0x3009, 0x3014, 0x3015]"

definition punct_ko :: "codepoint list" where
  "punct_ko =
    [33, 34, 35, 36, 37, 38, 39, 40, 41, 42, 43, 44, 45, 46, 47, 58, 59, 60, 61, 62, 63,
     64, 91, 92, 93, 94, 95, 96, 123, 124, 125, 126,
     0x3002, 0x3001, 0xFF1B, 0xFF1A, 0xFF1F, 0xFF01, 0x2026, 0x2014, 0xFF5E, 0xB7, 0x318D,
     0x300C, 0x300D, 0x300E, 0x300F, 0xFF08, 0xFF09, 0xFF5B, 0xFF5D, 0xFF3B, 0xFF3D,
     0x3010, 0x3011, 0x300A, 0x300B, 0x3008, 0x3009, 0x3014, 0x3015]"

definition PUNCTUATION_PATTERNS :: "(ustr \<times> regex) list" where
  "PUNCTUATION_PATTERNS =
    [(lit ''default'', [(AnyOf punct_default, One)]),
     (lit ''zh'', [(AnyOf punct_zh, One)]),
     (lit ''ja'', [(AnyOf punct_ja, One)]),
     (lit ''ko'', [(AnyOf punct_ko, One)])]"

text \<open>\<open>d.get(k, dflt)\<close> on a dictionary written as an association list.\<close>

definition dict_get :: "('k \<times> 'v) list \<Rightarrow> 'k \<Rightarrow> 'v \<Rightarrow> 'v" where
  "dict_get d k dflt = (case map_of d k of Some v \<Rightarrow> v | None \<Rightarrow> dflt)"

subsection \<open>The single-record functions\<close>

definition normalize_unicode :: "ucd \<Rightarrow> ustr \<Rightarrow> ustr" where
  "normalize_unicode U text = (if is_ascii text then text else ucd_nfc U text)"

text \<open>\<open>language_code.split('_')[0].lower()\<close>; \<open>split\<close> never returns an empty list.\<close>

definition lang_key :: "ucd \<Rightarrow> ustr \<Rightarrow> ustr" where
  "lang_key U language_code =
     py_lower U (case py_split_chr 95 language_code of [] \<Rightarrow> [] | p # ps \<Rightarrow> p)"

definition remove_punctuation :: "ucd \<Rightarrow> ustr \<Rightarrow> ustr \<Rightarrow> ustr" where
  "remove_punctuation U text language_code =
     (let pattern = dict_get PUNCTUATION_PATTERNS (lang_key U language_code)
                      [(AnyOf punct_default, One)]
      in re_sub pattern [] text)"

definition remove_extra_whitespace :: "ustr \<Rightarrow> ustr" where
  "remove_extra_whitespace text = py_strip (re_sub [(Space, Plus)] [32] text)"

text \<open>\<open>True\<close> keeps the text, \<open>False\<close> filters it.\<close>

definition remove_digit_only_words :: "ustr \<Rightarrow> bool" where
  "remove_digit_only_words text =
     (let text_no_space = py_replace_chr 32 [] text
      in if text_no_space \<noteq> [] \<and> py_isdigit text_no_space then False else True)"

definition remove_brackets_content :: "ustr \<Rightarrow> ustr" where
  "remove_brackets_content text =
     (let t1 = re_sub [(Chr 91, One), (Dot, LazyStar), (Chr 93, One)] [] text;
          t2 = re_sub [(Chr 60, One), (Dot, LazyStar), (Chr 62, One)] [] t1;
          t3 = re_sub [(Chr 123, One), (Dot, LazyStar), (Chr 125, One)] [] t2;
          t4 = re_sub [(Chr 40, One), (Dot, LazyStar), (Chr 41, One)] [] t3
      in t4)"

record config =
  lower_case :: bool
  remove_numbers :: bool
  remove_brackets :: bool

text \<open>
  \<open>text_normalize\<close> returns \<open>None\<close> for a text to filter. The language code is used
  only by \<open>remove_punctuation\<close>, whose \<open>language_code.split\<close> raises AttributeError
  on a value that is not a string.
\<close>

fun text_normalize :: "ucd \<Rightarrow> pyval \<Rightarrow> pyval \<Rightarrow> config \<Rightarrow> error + ustr option" where
  "text_normalize U (PyStr text) language_code cfg =
     (if \<not> truthy (PyStr text) \<or> \<not> isinstance_str (PyStr text) then Inr None
      else
        let t1 = normalize_unicode U text;
            t2 = (if remove_brackets cfg then remove_brackets_content t1 else t1)
        in (case language_code of
              PyStr lc \<Rightarrow>
                (let t3 = remove_punctuation U t2 lc;
                     t4 = (if lower_case cfg then py_lower U t3 else t3);
                     t5 = remove_extra_whitespace t4
                 in if remove_numbers cfg \<and> \<not> remove_digit_only_words t5 then Inr None
                    else if t5 = [] \<or> py_isspace t5 then Inr None
                    else Inr (Some t5))
            | PyNone \<Rightarrow> Inl AttributeError
            | PyInt i \<Rightarrow> Inl AttributeError))"
| "text_normalize U PyNone language_code cfg = Inr None"
| "text_normalize U (PyInt i) language_code cfg = Inr None"

subsection \<open>The batch adapter\<close>

text \<open>
  A batch is a dictionary from column names to lists. The loop appends one string per
  pair of \<open>zip(batch[text_column], languages)\<close>; an exception leaves the loop.
\<close>

type_synonym batch = "string \<rightharpoonup> pyval list"

fun normalize_loop ::
  "ucd \<Rightarrow> config \<Rightarrow> ustr list \<Rightarrow> (pyval \<times> pyval) list \<Rightarrow> error + ustr list" where
  "normalize_loop U cfg normalized_texts [] = Inr normalized_texts"
| "normalize_loop U cfg normalized_texts ((text, lang) # rest) =
     (case text_normalize U text lang cfg of
        Inl e \<Rightarrow> Inl e
      | Inr normalized \<Rightarrow>
          normalize_loop U cfg
            (normalized_texts @
               [case normalized of Some n \<Rightarrow> (if n \<noteq> [] then n else []) | None \<Rightarrow> []])
            rest)"

definition batch_normalize_text ::
  "ucd \<Rightarrow> batch \<Rightarrow> string \<Rightarrow> string \<Rightarrow> config \<Rightarrow> error + batch" where
  "batch_normalize_text U batch text_column language_column cfg =
     (case batch text_column of
        None \<Rightarrow> Inl KeyError
      | Some texts \<Rightarrow>
          (let languages =
                 (case batch language_column of
                    Some ls \<Rightarrow> ls
                  | None \<Rightarrow> replicate (length texts) (PyStr (lit ''en'')))
           in case normalize_loop U cfg [] (zip texts languages) of
                Inl e \<Rightarrow> Inl e
              | Inr normalized_texts \<Rightarrow>
                  Inr (batch(text_column \<mapsto> map PyStr normalized_texts))))"

section \<open>vaani_text_cleaner.py\<close>

fun clean_vaani_transcript :: "pyval \<Rightarrow> ustr" where
  "clean_vaani_transcript (PyStr text) =
     (if \<not> truthy (PyStr text) \<or> \<not> isinstance_str (PyStr text) then []
      else
        let t1 = re_sub [(Chr 123, One), (NoneOf [125], Star), (Chr 125, One)] [] text;
            t2 = re_sub [(Chr 60, One), (NoneOf [62], Star), (Chr 62, One)] [] t1;
            t3 = re_sub [(Chr 45, One), (Chr 45, Plus)] [] t2;
            t4 = re_sub [(Space, Plus)] [32] t3
        in py_strip t4)"
| "clean_vaani_transcript PyNone = []"
| "clean_vaani_transcript (PyInt i) = []"

text \<open>The marks \<open>devanagari_punct\<close>: U+0964, U+0965, \<open>? ! , ; : . ' "\<close>.\<close>

definition devanagari_punct :: "codepoint list" where
  "devanagari_punct = [0x964, 0x965, 63, 33, 44, 59, 58, 46, 39, 34]"

definition normalize_vaani_transcript :: "pyval \<Rightarrow> bool \<Rightarrow> ustr" where
  "normalize_vaani_transcript text remove_punct =
     (let t = clean_vaani_transcript text
      in if t = [] then []
         else
           let t' = (if remove_punct
                     then foldl (\<lambda>acc punct. py_replace_chr punct [] acc) t devanagari_punct
                     else t)
           in py_strip (re_sub [(Space, Plus)] [32] t'))"

fun clean_loop :: "ustr list \<Rightarrow> pyval list \<Rightarrow> ustr list" where
  "clean_loop cleaned_texts [] = cleaned_texts"
| "clean_loop cleaned_texts (text # rest) =
     (let cleaned = normalize_vaani_transcript text False
      in clean_loop (cleaned_texts @ [if cleaned \<noteq> [] then cleaned else []]) rest)"

definition batch_clean_vaani_transcripts :: "batch \<Rightarrow> string \<Rightarrow> error + batch" where
  "batch_clean_vaani_transcripts batch text_column =
     (case batch text_column of
        None \<Rightarrow> Inl KeyError
      | Some texts \<Rightarrow> Inr (batch(text_column \<mapsto> map PyStr (clean_loop [] texts))))"

section \<open>What the patterns compute\<close>

text \<open>
  The scans below say in words of lists what each substitution of the code does; the
  lemmas of the next section show that the regular expressions compute them.
\<close>

text \<open>Every whitespace run becomes one space.\<close>

function collapse_ws :: "ustr \<Rightarrow> ustr" where
  "collapse_ws [] = []"
| "collapse_ws (x # xs) =
     (if is_space x then 32 # collapse_ws (dropWhile is_space xs) else x # collapse_ws xs)"
  by pat_completeness auto
termination
  by (relation "measure length") (auto simp: le_imp_less_Suc length_dropWhile_le)

definition whitespace_normalize :: "ustr \<Rightarrow> ustr" where
  "whitespace_normalize s = py_strip (collapse_ws s)"

text \<open>Every span from an \<open>a\<close> to the next \<open>b\<close> after it is deleted.\<close>

function delete_spans :: "codepoint \<Rightarrow> codepoint \<Rightarrow> ustr \<Rightarrow> ustr" where
  "delete_spans a b [] = []"
| "delete_spans a b (x # xs) =
     (if x = a \<and> b \<in> set xs then delete_spans a b (tl (dropWhile (\<lambda>y. y \<noteq> b) xs))
      else x # delete_spans a b xs)"
  by pat_completeness auto
termination
proof -
  have shorter: "length (dropWhile P xs) - Suc 0 < Suc (length xs)" for P and xs :: ustr
    using length_dropWhile_le [of P xs] by arith
  show ?thesis
    by (relation "measure (\<lambda>(a, b, s). length s)") (auto simp: shorter)
qed

text \<open>
  The same within a line: the span from an \<open>a\<close> to the next \<open>b\<close> is deleted only if
  no newline (code point 10) comes before that \<open>b\<close>.
\<close>

definition closes_on_line :: "codepoint \<Rightarrow> ustr \<Rightarrow> bool" where
  "closes_on_line b xs =
     (case dropWhile (\<lambda>y. y \<noteq> b \<and> y \<noteq> 10) xs of [] \<Rightarrow> False | y # ys \<Rightarrow> y = b)"

function delete_line_spans :: "codepoint \<Rightarrow> codepoint \<Rightarrow> ustr \<Rightarrow> ustr" where
  "delete_line_spans a b [] = []"
| "delete_line_spans a b (x # xs) =
     (if x = a \<and> closes_on_line b xs
      then delete_line_spans a b (tl (dropWhile (\<lambda>y. y \<noteq> b \<and> y \<noteq> 10) xs))
      else x # delete_line_spans a b xs)"
  by pat_completeness auto
termination
proof -
  have shorter: "length (dropWhile P xs) - Suc 0 < Suc (length xs)" for P and xs :: ustr
    using length_dropWhile_le [of P xs] by arith
  show ?thesis
    by (relation "measure (\<lambda>(a, b, s). length s)") (auto simp: shorter)
qed

text \<open>Every maximal run of two or more \<open>d\<close> is deleted.\<close>

function delete_runs :: "codepoint \<Rightarrow> ustr \<Rightarrow> ustr" where
  "delete_runs d [] = []"
| "delete_runs d [x] = [x]"
| "delete_runs d (x # y # r) =
     (if x = d \<and> y = d then delete_runs d (dropWhile (\<lambda>z. z = d) r)
      else x # delete_runs d (y # r))"
  by pat_completeness auto
termination
proof -
  have shorter: "length (dropWhile P xs) < Suc (Suc (length xs))" for P and xs :: ustr
    using length_dropWhile_le [of P xs] by arith
  show ?thesis
    by (relation "measure (\<lambda>(d, s). length s)") (auto simp: shorter)
qed

text \<open>The four steps of the annotation stripper, on a string.\<close>

definition vaani_scan :: "ustr \<Rightarrow> ustr" where
  "vaani_scan s =
     whitespace_normalize (delete_runs 45 (delete_spans 60 62 (delete_spans 123 125 s)))"

section \<open>Notions the properties are stated with\<close>

text \<open>
  A normalized text: whitespace occurs only as single spaces (the ends are dealt with by
  \<open>py_strip\<close>).
\<close>

fun tidy :: "ustr \<Rightarrow> bool" where
  "tidy [] = True"
| "tidy [x] = (is_space x \<longrightarrow> x = 32)"
| "tidy (x # y # r) = ((is_space x \<longrightarrow> x = 32 \<and> \<not> is_space y) \<and> tidy (y # r))"

text \<open>An \<open>a\<close> with a \<open>b\<close> somewhere after it: a complete \<open>a ... b\<close> pair.\<close>

fun has_pair :: "codepoint \<Rightarrow> codepoint \<Rightarrow> ustr \<Rightarrow> bool" where
  "has_pair a b [] = False"
| "has_pair a b (x # xs) = ((x = a \<and> b \<in> set xs) \<or> has_pair a b xs)"

text \<open>Two adjacent \<open>d\<close>: a run of two or more.\<close>

fun has_run :: "codepoint \<Rightarrow> ustr \<Rightarrow> bool" where
  "has_run d [] = False"
| "has_run d [x] = False"
| "has_run d (x # y # r) = ((x = d \<and> y = d) \<or> has_run d (y # r))"

text \<open>
  ASCII punctuation, as Python's \<open>string.punctuation\<close>: the printable ASCII characters
  that are neither letters nor digits nor the space.
\<close>

definition ascii_punctuation :: "codepoint \<Rightarrow> bool" where
  "ascii_punctuation c \<longleftrightarrow>
     (33 \<le> c \<and> c \<le> 47) \<or> (58 \<le> c \<and> c \<le> 64) \<or> (91 \<le> c \<and> c \<le> 96) \<or> (123 \<le> c \<and> c \<le> 126)"

text \<open>
  The profile a key stands for: one of the three language entries, and the default
  entry for every other key.
\<close>

definition resolve_profile :: "ustr \<Rightarrow> codepoint list" where
  "resolve_profile key =
     (if key = lit ''zh'' then punct_zh
      else if key = lit ''ja'' then punct_ja
      else if key = lit ''ko'' then punct_ko
      else punct_default)"

text \<open>
  The decimal digit characters (Unicode general category Nd, what \<open>str.isdecimal\<close>
  accepts), as ranges of the same database.
\<close>

definition decimal_ranges :: "(codepoint \<times> codepoint) list" where
  "decimal_ranges =
    [(0x30, 0x39), (0x660, 0x669), (0x6F0, 0x6F9), (0x7C0, 0x7C9), (0x966, 0x96F),
     (0x9E6, 0x9EF), (0xA66, 0xA6F), (0xAE6, 0xAEF), (0xB66, 0xB6F), (0xBE6, 0xBEF),
     (0xC66, 0xC6F), (0xCE6, 0xCEF), (0xD66, 0xD6F), (0xDE6, 0xDEF), (0xE50, 0xE59),
     (0xED0, 0xED9), (0xF20, 0xF29), (0x1040, 0x1049), (0x1090, 0x1099), (0x17E0, 0x17E9),
     (0x1810, 0x1819), (0x1946, 0x194F), (0x19D0, 0x19D9), (0x1A80, 0x1A89),
     (0x1A90, 0x1A99), (0x1B50, 0x1B59), (0x1BB0, 0x1BB9), (0x1C40, 0x1C49),
     (0x1C50, 0x1C59), (0xA620, 0xA629), (0xA8D0, 0xA8D9), (0xA900, 0xA909),
     (0xA9D0, 0xA9D9), (0xA9F0, 0xA9F9), (0xAA50, 0xAA59), (0xABF0, 0xABF9),
     (0xFF10, 0xFF19), (0x104A0, 0x104A9), (0x10D30, 0x10D39), (0x11066, 0x1106F),
     (0x110F0, 0x110F9), (0x11136, 0x1113F), (0x111D0, 0x111D9), (0x112F0, 0x112F9),
     (0x11450, 0x11459), (0x114D0, 0x114D9), (0x11650, 0x11659), (0x116C0, 0x116C9),
     (0x11730, 0x11739), (0x118E0, 0x118E9), (0x11950, 0x11959), (0x11C50, 0x11C59),
     (0x11D50, 0x11D59), (0x11DA0, 0x11DA9), (0x16A60, 0x16A69), (0x16AC0, 0x16AC9),
     (0x16B50, 0x16B59), (0x1D7CE, 0x1D7FF), (0x1E140, 0x1E149), (0x1E2F0, 0x1E2F9),
     (0x1E950, 0x1E959), (0x1FBF0, 0x1FBF9)]"

definition cp_isdecimal :: "codepoint \<Rightarrow> bool" where
  "cp_isdecimal c = in_ranges decimal_ranges c"

text \<open>
  A character database that knows nothing beyond ASCII, for evaluating the functions on
  concrete inputs: it leaves other text as it is.
\<close>

definition ascii_ucd :: ucd where
  "ascii_ucd = \<lparr>ucd_lower = (\<lambda>s. s), ucd_nfc = (\<lambda>s. s)\<rparr>"

text \<open>A small batch and a configuration, for evaluating the batch adapters.\<close>

definition sample_batch :: batch where
  "sample_batch =
     [''text'' \<mapsto> [PyStr (lit ''Hi, you''), PyNone, PyStr (lit ''42'')],
      ''language'' \<mapsto> [PyStr (lit ''en''), PyStr (lit ''zh''), PyStr (lit ''en'')]]"

definition sample_config :: config where
  "sample_config = \<lparr>lower_case = True, remove_numbers = True, remove_brackets = False\<rparr>"

section \<open>The patterns compute the scans\<close>

lemma re_sub_step:
  "re_sub_at False p repl s =
     (case re_match (Suc (length s)) p s of
        Some rest \<Rightarrow> repl @ re_sub_at (length rest = length s) p repl rest
      | None \<Rightarrow> (case s of [] \<Rightarrow> [] | x # xs \<Rightarrow> x # re_sub_at False p repl xs))"
  by (subst re_sub_at.simps) simp

text \<open>
  The engine on a pattern that can match the empty string, as the Python documentation
  has it: \<open>re.sub('x*', '-', 'abxd')\<close> is \<open>'-a-b--d-'\<close>.
\<close>

lemma re_sub_empty_matches:
  "re_sub [(Chr 120, Star)] [45] (lit ''abxd'') = lit ''-a-b--d-''"
  by (simp add: re_sub_def re_sub_at.simps lit_def)

lemma dropWhile_shorter [simp]: "length (dropWhile P xs) \<noteq> Suc (length xs)"
  "length (dropWhile P xs) \<noteq> Suc (Suc (length xs))"
  "length (dropWhile P xs) - Suc 0 \<noteq> Suc (length xs)"
  using length_dropWhile_le [of P xs] by arith+

lemma re_sub_class: "re_sub [(AnyOf cs, One)] [] s = filter (\<lambda>c. c \<notin> set cs) s"
  unfolding re_sub_def by (induction s) (simp_all add: re_sub_step)

lemma match_space_star:
  "length xs < n \<Longrightarrow> re_match n [(Space, Star)] xs = Some (dropWhile is_space xs)"
  by (induction xs) simp_all

lemma re_sub_space_plus: "re_sub [(Space, Plus)] [32] s = collapse_ws s"
  unfolding re_sub_def
  by (induction s rule: collapse_ws.induct) (simp_all add: re_sub_step match_space_star)

lemma match_noneof_star:
  "length xs < n \<Longrightarrow>
   re_match n [(NoneOf [b], Star), (Chr b, One)] xs =
     (if b \<in> set xs then Some (tl (dropWhile (\<lambda>y. y \<noteq> b) xs)) else None)"
  by (induction xs) auto

lemma re_sub_spans:
  "re_sub [(Chr a, One), (NoneOf [b], Star), (Chr b, One)] [] s = delete_spans a b s"
  unfolding re_sub_def
  by (induction a b s rule: delete_spans.induct) (simp_all add: re_sub_step match_noneof_star)

lemma match_dot_lazy:
  "length xs < n \<Longrightarrow>
   re_match n [(Dot, LazyStar), (Chr b, One)] xs =
     (if closes_on_line b xs then Some (tl (dropWhile (\<lambda>y. y \<noteq> b \<and> y \<noteq> 10) xs)) else None)"
  by (induction xs) (auto simp: closes_on_line_def)

lemma re_sub_line_spans:
  "re_sub [(Chr a, One), (Dot, LazyStar), (Chr b, One)] [] s = delete_line_spans a b s"
  unfolding re_sub_def
  by (induction a b s rule: delete_line_spans.induct) (simp_all add: re_sub_step match_dot_lazy)

lemma match_chr_star:
  "length xs < n \<Longrightarrow> re_match n [(Chr d, Star)] xs = Some (dropWhile (\<lambda>z. z = d) xs)"
  by (induction xs) simp_all

lemma runs_step:
  "re_sub_at False [(Chr d, One), (Chr d, Plus)] [] [] = []"
  "re_sub_at False [(Chr d, One), (Chr d, Plus)] [] [x] = [x]"
  "re_sub_at False [(Chr d, One), (Chr d, Plus)] [] (x # y # r) =
     (if x = d \<and> y = d
      then re_sub_at False [(Chr d, One), (Chr d, Plus)] [] (dropWhile (\<lambda>z. z = d) r)
      else x # re_sub_at False [(Chr d, One), (Chr d, Plus)] [] (y # r))"
  by (subst re_sub_at.simps, simp add: match_chr_star)+

lemma re_sub_runs: "re_sub [(Chr d, One), (Chr d, Plus)] [] s = delete_runs d s"
  unfolding re_sub_def
  by (induction d s rule: delete_runs.induct) (simp_all add: runs_step)

text \<open>The first opener pairs with the nearest closer after it.\<close>

lemma delete_spans_first:
  "a \<notin> set pre \<Longrightarrow> b \<notin> set mid \<Longrightarrow>
   delete_spans a b (pre @ a # mid @ b # post) = pre @ delete_spans a b post"
proof (induction pre)
  case Nil
  then have "dropWhile (\<lambda>y. y \<noteq> b) (mid @ b # post) = b # post"
    by (subst dropWhile_append2) auto
  then show ?case by simp
next
  case (Cons x pre)
  then show ?case by simp
qed

lemma delete_line_spans_first:
  "a \<notin> set pre \<Longrightarrow> b \<notin> set mid \<Longrightarrow> 10 \<notin> set mid \<Longrightarrow>
   delete_line_spans a b (pre @ a # mid @ b # post) = pre @ delete_line_spans a b post"
proof (induction pre)
  case Nil
  then have "dropWhile (\<lambda>y. y \<noteq> b \<and> y \<noteq> 10) (mid @ b # post) = b # post"
    by (subst dropWhile_append2) auto
  then show ?case by (simp add: closes_on_line_def)
next
  case (Cons x pre)
  then show ?case by simp
qed

section \<open>Whitespace normalization\<close>

lemma tidy_Cons_nonspace: "\<not> is_space x \<Longrightarrow> tidy (x # t) = tidy t"
  by (cases t) simp_all

lemma collapse_ws_nonspace_head:
  "dropWhile is_space xs = y # ys \<Longrightarrow> collapse_ws (y # ys) = y # collapse_ws ys \<and> \<not> is_space y"
  by (auto simp: dropWhile_eq_Cons_conv)

lemma tidy_collapse_ws: "tidy (collapse_ws s)"
proof (induction s rule: collapse_ws.induct)
  case 1
  show ?case by simp
next
  case (2 x xs)
  show ?case
  proof (cases "is_space x")
    case True
    with 2 have ih: "tidy (collapse_ws (dropWhile is_space xs))" by simp
    show ?thesis
    proof (cases "dropWhile is_space xs")
      case Nil
      show ?thesis using True by (simp add: Nil)
    next
      case (Cons y ys)
      from collapse_ws_nonspace_head [OF Cons] ih Cons True show ?thesis by simp
    qed
  next
    case False
    with 2 show ?thesis by (simp add: tidy_Cons_nonspace)
  qed
qed

lemma collapse_ws_tidy: "tidy s \<Longrightarrow> collapse_ws s = s"
proof (induction s rule: collapse_ws.induct)
  case 1
  show ?case by simp
next
  case (2 x xs)
  show ?case
  proof (cases "is_space x")
    case True
    from True "2.prems" have x: "x = 32" by (cases xs) simp_all
    from True "2.prems" have dw: "dropWhile is_space xs = xs" and t: "tidy xs"
      by (cases xs; simp)+
    from "2.IH"(1) [OF True] dw t x True show ?thesis by simp
  next
    case False
    with "2.prems" have "tidy xs" by (simp add: tidy_Cons_nonspace)
    with "2.IH"(2) False show ?thesis by simp
  qed
qed

lemma tidy_append_right: "tidy (a @ b) \<Longrightarrow> tidy b"
  by (induction a rule: tidy.induct) (auto, (cases b; simp)+)

lemma tidy_append_left: "tidy (a @ b) \<Longrightarrow> tidy a"
  by (induction a rule: tidy.induct) (auto, (cases b; simp)+)

lemma strip_split:
  "\<exists>pre post. s = pre @ py_strip s @ post"
proof -
  let ?u = "dropWhile is_space s"
  have "s = takeWhile is_space s @ ?u" by simp
  moreover have "?u = py_strip s @ rev (takeWhile is_space (rev ?u))"
    unfolding py_strip_def
    by (metis rev_append rev_rev_ident takeWhile_dropWhile_id)
  ultimately show ?thesis by metis
qed

lemma tidy_strip: "tidy s \<Longrightarrow> tidy (py_strip s)"
  using strip_split [of s] by (metis tidy_append_left tidy_append_right)

lemma strip_idem: "py_strip (py_strip s) = py_strip s"
proof -
  let ?u = "dropWhile is_space s"
  let ?v = "rev (dropWhile is_space (rev ?u))"
  have uv: "?u = ?v @ rev (takeWhile is_space (rev ?u))"
    by (metis rev_append rev_rev_ident takeWhile_dropWhile_id)
  have "dropWhile is_space ?v = ?v"
  proof (cases ?v)
    case Nil
    show ?thesis unfolding Nil by simp
  next
    case (Cons y ys)
    with uv have "?u = y # ys @ rev (takeWhile is_space (rev ?u))" by simp
    then have "\<not> is_space y" by (simp add: dropWhile_eq_Cons_conv)
    with Cons show ?thesis by simp
  qed
  then show ?thesis by (simp add: py_strip_def)
qed

lemma whitespace_normalize_idem:
  "whitespace_normalize (whitespace_normalize s) = whitespace_normalize s"
  by (simp add: whitespace_normalize_def collapse_ws_tidy tidy_strip tidy_collapse_ws strip_idem)

lemma remove_extra_whitespace_eq: "remove_extra_whitespace s = whitespace_normalize s"
  by (simp add: remove_extra_whitespace_def whitespace_normalize_def re_sub_space_plus)

text \<open>
  C7: for every string \<open>s\<close>, \<open>remove_extra_whitespace\<close> replaces every maximal run of
  whitespace characters by one ASCII space and trims whitespace at both ends
  (\<open>whitespace_normalize\<close>), and applying it twice gives the same as applying it once.
\<close>

theorem remove_extra_whitespace_idempotent:
  "remove_extra_whitespace s = whitespace_normalize s \<and>
   remove_extra_whitespace (remove_extra_whitespace s) = remove_extra_whitespace s"
  by (simp add: remove_extra_whitespace_eq whitespace_normalize_idem)

theorem remove_extra_whitespace_idempotent_witness:
  "remove_extra_whitespace [32, 97, 9, 10, 98, 32] = [97, 32, 98] \<and>
   remove_extra_whitespace (remove_extra_whitespace [32, 97, 9, 10, 98, 32]) = [97, 32, 98]"
  using remove_extra_whitespace_idempotent [of "[32, 97, 9, 10, 98, 32]"]
  by (simp add: remove_extra_whitespace_eq whitespace_normalize_def py_strip_def is_space_def)

section \<open>The annotation stripper\<close>

lemma has_pair_mem: "has_pair a b s \<Longrightarrow> b \<in> set s"
  by (induction s) auto

lemma has_pair_subseq: "has_pair a b s \<longleftrightarrow> subseq [a, b] s"
  by (induction s) (auto simp: subseq_singleton_left dest: has_pair_mem)

lemma has_run_sublist: "has_run d s \<longleftrightarrow> sublist [d, d] s"
  by (induction d s rule: has_run.induct) (auto simp: sublist_Cons_right)

lemma has_run_Cons_other: "x \<noteq> d \<Longrightarrow> has_run d (x # t) = has_run d t"
  by (cases t) simp_all

lemma subseq_delete_spans: "subseq (delete_spans a b s) s"
proof (induction a b s rule: delete_spans.induct)
  case (1 a b)
  show ?case by simp
next
  case (2 a b x xs)
  have "suffix (tl (dropWhile (\<lambda>y. y \<noteq> b) xs)) xs"
    by (meson suffix_dropWhile suffix_order.trans suffix_tl)
  then have "subseq (tl (dropWhile (\<lambda>y. y \<noteq> b) xs)) xs" by (rule suffix_imp_subseq)
  with 2 show ?case
    by (auto intro: subseq_order.trans)
qed

lemma subseq_delete_runs: "subseq (delete_runs d s) s"
proof (induction d s rule: delete_runs.induct)
  case (3 d x y r)
  have "subseq (dropWhile (\<lambda>z. z = d) r) r"
    by (rule suffix_imp_subseq) (rule suffix_dropWhile)
  with 3 show ?case by (auto intro: subseq_order.trans)
qed simp_all

lemma sublist_strip: "sublist (py_strip s) s"
proof -
  have "sublist (py_strip s) (dropWhile is_space s)"
    unfolding py_strip_def by (simp add: sublist_rev_left suffix_dropWhile)
  moreover have "sublist (dropWhile is_space s) s"
    by (simp add: suffix_dropWhile)
  ultimately show ?thesis by (rule sublist_order.order.trans)
qed

lemma set_delete_spans: "set (delete_spans a b s) \<subseteq> set s"
  using subseq_delete_spans [of a b s] by (metis set_nths_subset subseq_conv_nths)

lemma no_pair_delete_spans: "\<not> has_pair a b (delete_spans a b s)"
  by (induction a b s rule: delete_spans.induct) (use set_delete_spans in auto)

lemma delete_runs_head: "y \<noteq> d \<Longrightarrow> delete_runs d (y # r) = y # delete_runs d r"
  by (cases r) simp_all

lemma no_run_delete_runs: "\<not> has_run d (delete_runs d s)"
proof (induction d s rule: delete_runs.induct)
  case (3 d x y r)
  show ?case
  proof (cases "x = d")
    case True
    show ?thesis
    proof (cases "y = d")
      case True
      with \<open>x = d\<close> 3 show ?thesis by simp
    next
      case False
      with True 3 show ?thesis by (simp add: delete_runs_head)
    qed
  next
    case False
    with 3 show ?thesis by (simp add: has_run_Cons_other)
  qed
qed simp_all

lemma set_collapse_ws: "set (collapse_ws s) \<subseteq> insert 32 (set s)"
proof (induction s rule: collapse_ws.induct)
  case (2 x xs)
  have "set (dropWhile is_space xs) \<subseteq> set xs" by (rule set_dropWhileD [THEN subsetI])
  with 2 show ?case by auto
qed simp

lemma has_pair_suffix: "suffix t s \<Longrightarrow> has_pair a b t \<Longrightarrow> has_pair a b s"
  unfolding has_pair_subseq by (meson subseq_order.trans suffix_imp_subseq)

lemma no_pair_collapse:
  "a \<noteq> 32 \<Longrightarrow> b \<noteq> 32 \<Longrightarrow> \<not> has_pair a b s \<Longrightarrow> \<not> has_pair a b (collapse_ws s)"
proof (induction s rule: collapse_ws.induct)
  case (2 x xs)
  show ?case
  proof (cases "is_space x")
    case True
    have "\<not> has_pair a b (dropWhile is_space xs)"
      using "2.prems"(3) has_pair_suffix [OF suffix_dropWhile, of a b is_space xs] by auto
    with 2 True show ?thesis by simp
  next
    case False
    with 2 set_collapse_ws [of xs] show ?thesis by auto
  qed
qed simp

lemma has_run_suffix: "suffix t s \<Longrightarrow> has_run d t \<Longrightarrow> has_run d s"
  unfolding has_run_sublist by (meson sublist_order.order.trans suffix_imp_sublist)

lemma collapse_ws_head:
  "collapse_ws (y # ys) = (if is_space y then 32 else y) # tl (collapse_ws (y # ys))"
  by simp

lemma no_run_collapse:
  "d \<noteq> 32 \<Longrightarrow> \<not> has_run d s \<Longrightarrow> \<not> has_run d (collapse_ws s)"
proof (induction s rule: collapse_ws.induct)
  case (2 x xs)
  show ?case
  proof (cases "is_space x")
    case True
    have "\<not> has_run d (dropWhile is_space xs)"
      using "2.prems"(2) has_run_suffix [OF suffix_dropWhile, of d is_space xs]
        has_run_suffix [of xs "x # xs" d] by (auto simp: suffix_ConsI)
    with 2 True show ?thesis by (simp add: has_run_Cons_other)
  next
    case False
    have tail: "\<not> has_run d xs"
      using "2.prems"(2) has_run_suffix [of xs "x # xs" d] by (auto simp: suffix_ConsI)
    with 2 False have ih: "\<not> has_run d (collapse_ws xs)" by simp
    show ?thesis
    proof (cases xs)
      case Nil
      with False show ?thesis by simp
    next
      case (Cons y ys)
      from "2.prems"(2) Cons have xy: "\<not> (x = d \<and> y = d)" by simp
      define h where "h = (if is_space y then 32 else y)"
      define t where "t = tl (collapse_ws xs)"
      have ht: "collapse_ws xs = h # t" and h: "h = (if is_space y then 32 else y)"
        using Cons by (simp_all add: h_def t_def)
      from xy h "2.prems"(1) have "\<not> (x = d \<and> h = d)" by auto
      with ih ht have "\<not> has_run d (x # collapse_ws xs)" by simp
      with False show ?thesis by simp
    qed
  qed
qed simp

lemma delete_spans_id: "\<not> has_pair a b s \<Longrightarrow> delete_spans a b s = s"
  by (induction s) auto

lemma delete_runs_id: "\<not> has_run d s \<Longrightarrow> delete_runs d s = s"
  by (induction d s rule: delete_runs.induct) auto

lemma no_pair_normalize:
  assumes "a \<noteq> 32" "b \<noteq> 32" "\<not> has_pair a b s"
  shows "\<not> has_pair a b (whitespace_normalize s)"
proof -
  from assms have "\<not> has_pair a b (collapse_ws s)" by (rule no_pair_collapse)
  moreover have "subseq (py_strip (collapse_ws s)) (collapse_ws s)"
    by (rule sublist_imp_subseq) (rule sublist_strip)
  ultimately show ?thesis
    unfolding whitespace_normalize_def has_pair_subseq by (meson subseq_order.trans)
qed

lemma no_run_normalize:
  assumes "d \<noteq> 32" "\<not> has_run d s"
  shows "\<not> has_run d (whitespace_normalize s)"
proof -
  from assms have "\<not> has_run d (collapse_ws s)" by (rule no_run_collapse)
  then show ?thesis
    unfolding whitespace_normalize_def has_run_sublist
    by (meson sublist_order.order.trans sublist_strip)
qed

lemma no_pair_subseq: "subseq t s \<Longrightarrow> \<not> has_pair a b s \<Longrightarrow> \<not> has_pair a b t"
  unfolding has_pair_subseq by (meson subseq_order.trans)

lemma clean_vaani_scan: "clean_vaani_transcript (PyStr s) = vaani_scan s"
  by (simp add: vaani_scan_def whitespace_normalize_def re_sub_spans re_sub_runs
      re_sub_space_plus py_strip_def)

lemma vaani_scan_clean:
  "\<not> has_pair 123 125 (vaani_scan s)" "\<not> has_pair 60 62 (vaani_scan s)"
  "\<not> has_run 45 (vaani_scan s)" "whitespace_normalize (vaani_scan s) = vaani_scan s"
proof -
  let ?u1 = "delete_spans 123 125 s"
  let ?u2 = "delete_spans 60 62 ?u1"
  let ?u3 = "delete_runs 45 ?u2"
  have "\<not> has_pair 123 125 ?u1" by (rule no_pair_delete_spans)
  then have "\<not> has_pair 123 125 ?u2" by (rule no_pair_subseq [OF subseq_delete_spans])
  then have "\<not> has_pair 123 125 ?u3" by (rule no_pair_subseq [OF subseq_delete_runs])
  then show "\<not> has_pair 123 125 (vaani_scan s)"
    unfolding vaani_scan_def by (intro no_pair_normalize) simp_all
  have "\<not> has_pair 60 62 ?u2" by (rule no_pair_delete_spans)
  then have "\<not> has_pair 60 62 ?u3" by (rule no_pair_subseq [OF subseq_delete_runs])
  then show "\<not> has_pair 60 62 (vaani_scan s)"
    unfolding vaani_scan_def by (intro no_pair_normalize) simp_all
  have "\<not> has_run 45 ?u3" by (rule no_run_delete_runs)
  then show "\<not> has_run 45 (vaani_scan s)"
    unfolding vaani_scan_def by (intro no_run_normalize) simp_all
  show "whitespace_normalize (vaani_scan s) = vaani_scan s"
    unfolding vaani_scan_def by (rule whitespace_normalize_idem)
qed

lemma vaani_scan_idem: "vaani_scan (vaani_scan s) = vaani_scan s"
proof -
  let ?t = "vaani_scan s"
  have "delete_runs 45 (delete_spans 60 62 (delete_spans 123 125 ?t)) = ?t"
    by (simp add: delete_spans_id delete_runs_id vaani_scan_clean)
  then have "vaani_scan ?t = whitespace_normalize ?t"
    by (simp add: vaani_scan_def [of ?t])
  then show ?thesis by (simp add: vaani_scan_clean)
qed

lemma clean_vaani_cases:
  "clean_vaani_transcript v = (case v of PyStr s \<Rightarrow> vaani_scan s | PyNone \<Rightarrow> [] | PyInt i \<Rightarrow> [])"
  by (cases v) (simp_all only: clean_vaani_scan clean_vaani_transcript.simps pyval.case)

lemma vaani_scan_Nil: "vaani_scan [] = []"
  by (simp add: vaani_scan_def whitespace_normalize_def py_strip_def)

text \<open>
  C5: for every input, \<open>clean_vaani_transcript\<close> returns the empty string for an empty or
  non-text input, and otherwise deletes every span from a \<open>{\<close> to the next \<open>}\<close>, then
  every span from a \<open><\<close> to the next \<open>>\<close>, then every run of two or more \<open>-\<close>, and
  then normalizes whitespace, in this order. A span starts at the first opener and ends
  at the nearest closer after it. On the transcript of the specification
  (U+090F U+0915 ... \<open>{watchman}\<close> ...) the annotation and one of the two spaces around
  it disappear.
\<close>

theorem clean_vaani_transcript_steps:
  "clean_vaani_transcript v =
     (case v of
        PyStr s \<Rightarrow>
          if s = [] then []
          else whitespace_normalize
                 (delete_runs 45 (delete_spans 60 62 (delete_spans 123 125 s)))
      | PyNone \<Rightarrow> []
      | PyInt i \<Rightarrow> []) \<and>
   (a \<notin> set pre \<and> b \<notin> set mid \<longrightarrow>
      delete_spans a b (pre @ a # mid @ b # post) = pre @ delete_spans a b post) \<and>
   clean_vaani_transcript
     (PyStr [2319, 2325, 32, 2357, 2377, 2330, 2350, 2344, 32,
             123, 119, 97, 116, 99, 104, 109, 97, 110, 125, 32, 2309, 2360, 2366]) =
     [2319, 2325, 32, 2357, 2377, 2330, 2350, 2344, 32, 2309, 2360, 2366]"
proof (intro conjI)
  show "clean_vaani_transcript v =
     (case v of
        PyStr s \<Rightarrow>
          if s = [] then []
          else whitespace_normalize
                 (delete_runs 45 (delete_spans 60 62 (delete_spans 123 125 s)))
      | PyNone \<Rightarrow> []
      | PyInt i \<Rightarrow> [])"
    using vaani_scan_Nil by (cases v) (simp_all add: clean_vaani_cases vaani_scan_def)
  show "a \<notin> set pre \<and> b \<notin> set mid \<longrightarrow>
      delete_spans a b (pre @ a # mid @ b # post) = pre @ delete_spans a b post"
    by (simp add: delete_spans_first)
  show "clean_vaani_transcript
     (PyStr [2319, 2325, 32, 2357, 2377, 2330, 2350, 2344, 32,
             123, 119, 97, 116, 99, 104, 109, 97, 110, 125, 32, 2309, 2360, 2366]) =
     [2319, 2325, 32, 2357, 2377, 2330, 2350, 2344, 32, 2309, 2360, 2366]"
    by (simp only: clean_vaani_scan)
      (simp add: vaani_scan_def whitespace_normalize_def py_strip_def is_space_def)
qed

theorem clean_vaani_transcript_steps_witness:
  "123 \<notin> set (lit ''a '') \<and> 125 \<notin> set (lit ''b{'') \<and>
   delete_spans 123 125 (lit ''a '' @ 123 # lit ''b{'' @ 125 # lit '' d}'') = lit ''a  d}'' \<and>
   clean_vaani_transcript (PyStr (lit ''a {b} <c> d -- e'')) = lit ''a d e''"
proof -
  note inst = clean_vaani_transcript_steps
    [where v = "PyStr (lit ''a {b} <c> d -- e'')" and a = 123 and b = 125
       and pre = "lit ''a ''" and mid = "lit ''b{''" and post = "lit '' d}''"]
  have h: "123 \<notin> set (lit ''a '') \<and> 125 \<notin> set (lit ''b{'')" by (simp add: lit_def)
  with inst have "delete_spans 123 125 (lit ''a '' @ 123 # lit ''b{'' @ 125 # lit '' d}'') =
      lit ''a '' @ delete_spans 123 125 (lit '' d}'')"
    by blast
  then have first: "delete_spans 123 125 (lit ''a '' @ 123 # lit ''b{'' @ 125 # lit '' d}'') =
      lit ''a  d}''"
    by (simp add: lit_def)
  have "clean_vaani_transcript (PyStr (lit ''a {b} <c> d -- e'')) = lit ''a d e''"
    using inst
    by (simp only: clean_vaani_scan)
      (simp add: lit_def vaani_scan_def whitespace_normalize_def py_strip_def is_space_def)
  with h first show ?thesis by blast
qed

text \<open>
  C10: \<open>clean_vaani_transcript\<close> is idempotent: its output contains no \<open>{\<close> followed
  later by a \<open>}\<close>, no \<open><\<close> followed later by a \<open>>\<close>, no two adjacent \<open>-\<close>, and is
  already whitespace-normalized, so cleaning it again changes nothing.
\<close>

theorem clean_vaani_transcript_idempotent:
  "clean_vaani_transcript (PyStr (clean_vaani_transcript v)) = clean_vaani_transcript v \<and>
   \<not> has_pair 123 125 (clean_vaani_transcript v) \<and>
   \<not> has_pair 60 62 (clean_vaani_transcript v) \<and>
   \<not> has_run 45 (clean_vaani_transcript v) \<and>
   remove_extra_whitespace (clean_vaani_transcript v) = clean_vaani_transcript v"
proof (cases v)
  case (PyStr s)
  then show ?thesis
    by (simp only: clean_vaani_scan vaani_scan_idem vaani_scan_clean
        remove_extra_whitespace_eq simp_thms)
next
  case PyNone
  then show ?thesis
    using vaani_scan_Nil
    by (simp add: clean_vaani_scan remove_extra_whitespace_eq whitespace_normalize_def py_strip_def)
next
  case (PyInt i)
  then show ?thesis
    using vaani_scan_Nil
    by (simp add: clean_vaani_scan remove_extra_whitespace_eq whitespace_normalize_def py_strip_def)
qed

theorem clean_vaani_transcript_idempotent_witness:
  "clean_vaani_transcript (PyStr (clean_vaani_transcript (PyStr (lit ''a {b} <c> d -- e'')))) =
     lit ''a d e''"
  using clean_vaani_transcript_idempotent [of "PyStr (lit ''a {b} <c> d -- e'')"]
  by (simp only: clean_vaani_scan)
    (simp add: lit_def vaani_scan_def whitespace_normalize_def py_strip_def is_space_def)

section \<open>The punctuation remover\<close>

lemma py_split_chr_first:
  "(case py_split_chr sep s of [] \<Rightarrow> [] | p # ps \<Rightarrow> p) = takeWhile (\<lambda>c. c \<noteq> sep) s"
  by (induction s) (auto split: list.splits)

lemma lang_key_eq: "lang_key U tag = py_lower U (takeWhile (\<lambda>c. c \<noteq> 95) tag)"
  by (simp add: lang_key_def py_split_chr_first)

lemma lit_keys:
  "lit ''default'' = [100, 101, 102, 97, 117, 108, 116]"
  "lit ''zh'' = [122, 104]" "lit ''ja'' = [106, 97]" "lit ''ko'' = [107, 111]"
  by (simp_all add: lit_def)

lemma pattern_lookup:
  "dict_get PUNCTUATION_PATTERNS k [(AnyOf punct_default, One)] =
     [(AnyOf (resolve_profile k), One)]"
  by (simp add: dict_get_def PUNCTUATION_PATTERNS_def resolve_profile_def lit_keys)

lemma remove_punctuation_eq:
  "remove_punctuation U text tag =
     filter (\<lambda>c. c \<notin> set (resolve_profile (py_lower U (takeWhile (\<lambda>c. c \<noteq> 95) tag)))) text"
  by (simp add: remove_punctuation_def pattern_lookup re_sub_class lang_key_eq)

lemma lower_zh_CN: "py_lower U (takeWhile (\<lambda>c. c \<noteq> 95) (lit ''zh_CN'')) = lit ''zh''"
  by (simp add: lit_def py_lower_def is_ascii_def ascii_lower_def)

lemma lower_zh_hyphen: "py_lower U (takeWhile (\<lambda>c. c \<noteq> 95) (lit ''zh-CN'')) = lit ''zh-cn''"
  by (simp add: lit_def py_lower_def is_ascii_def ascii_lower_def)

lemma resolve_zh_hyphen: "resolve_profile (lit ''zh-cn'') = punct_default"
  by (simp add: resolve_profile_def lit_def)

text \<open>
  C1, as the code has it: for every text and every language tag, \<open>remove_punctuation\<close>
  deletes the characters of the profile found under the key that is the tag up to its
  first \<open>_\<close> (code point 95), lowercased; the keys \<open>zh\<close>, \<open>ja\<close> and \<open>ko\<close> have
  profiles of their own and every other key gets the default one. A \<open>-\<close> does not end
  the key: \<open>zh_CN\<close> gets the \<open>zh\<close> profile, \<open>zh-CN\<close> the default one.
\<close>

theorem remove_punctuation_profile:
  "remove_punctuation U text tag =
     filter (\<lambda>c. c \<notin> set (resolve_profile (py_lower U (takeWhile (\<lambda>c. c \<noteq> 95) tag)))) text \<and>
   remove_punctuation U text (lit ''zh_CN'') = filter (\<lambda>c. c \<notin> set punct_zh) text \<and>
   remove_punctuation U text (lit ''zh-CN'') = filter (\<lambda>c. c \<notin> set punct_default) text"
  by (simp add: remove_punctuation_eq lower_zh_CN lower_zh_hyphen resolve_zh_hyphen)
    (simp add: resolve_profile_def)

subsection \<open>ASCII punctuation in every profile\<close>

lemma ascii_punctuation_enum:
  "ascii_punctuation c \<longleftrightarrow> c \<in> {33..<48} \<union> {58..<65} \<union> {91..<97} \<union> {123..<127}"
  by (auto simp: ascii_punctuation_def)

lemma ascii_punctuation_default: "ascii_punctuation c \<longleftrightarrow> c \<in> set punct_default"
proof -
  have "{33..<48} \<union> {58..<65} \<union> {91..<97} \<union> {123..<127} = set punct_default"
    unfolding punct_default_def set_upt [symmetric] by (simp add: insert_commute)
  then show ?thesis by (simp only: ascii_punctuation_enum)
qed

lemma default_in_zh: "set punct_default \<subseteq> set punct_zh"
  by (simp add: punct_default_def punct_zh_def)

lemma default_in_ja: "set punct_default \<subseteq> set punct_ja"
  by (simp add: punct_default_def punct_ja_def)

lemma default_in_ko: "set punct_default \<subseteq> set punct_ko"
  by (simp add: punct_default_def punct_ko_def)

lemma default_in_profile: "set punct_default \<subseteq> set (resolve_profile k)"
  using default_in_zh default_in_ja default_in_ko by (simp add: resolve_profile_def)

theorem remove_punctuation_profile_witness:
  "remove_punctuation ascii_ucd (lit ''a,b'') (lit ''ZH_hans'') = lit ''ab''"
  using remove_punctuation_profile [of ascii_ucd "lit ''a,b''" "lit ''ZH_hans''"]
  by (simp add: lit_def py_lower_def is_ascii_def ascii_lower_def resolve_profile_def
      punct_zh_def)

theorem remove_punctuation_hyphen_counterexample:
  "remove_punctuation ascii_ucd [0x3002] (lit ''zh-CN'') = [0x3002] \<and>
   remove_punctuation ascii_ucd [0x3002] (lit ''zh'') = []"
  by (simp add: remove_punctuation_eq lower_zh_hyphen resolve_zh_hyphen)
    (simp add: resolve_profile_def lit_def py_lower_def is_ascii_def ascii_lower_def
      punct_default_def punct_zh_def)

text \<open>
  C8: for every language tag whose key is not in the punctuation table,
  \<open>remove_punctuation\<close> returns the text without the characters of the default
  profile (the lookup has a default and cannot fail); \<open>remove_punctuation("a,b!", "xx")\<close>
  is \<open>"ab"\<close>.
\<close>

theorem remove_punctuation_fallback:
  "(lang_key U tag \<notin> fst ` set PUNCTUATION_PATTERNS \<longrightarrow>
      remove_punctuation U text tag = filter (\<lambda>c. c \<notin> set punct_default) text) \<and>
   remove_punctuation U (lit ''a,b!'') (lit ''xx'') = lit ''ab''"
proof
  show "lang_key U tag \<notin> fst ` set PUNCTUATION_PATTERNS \<longrightarrow>
      remove_punctuation U text tag = filter (\<lambda>c. c \<notin> set punct_default) text"
    by (simp add: remove_punctuation_eq lang_key_eq [symmetric] PUNCTUATION_PATTERNS_def
        resolve_profile_def)
  show "remove_punctuation U (lit ''a,b!'') (lit ''xx'') = lit ''ab''"
    by (simp add: remove_punctuation_eq)
      (simp add: lit_def py_lower_def is_ascii_def ascii_lower_def resolve_profile_def
        punct_default_def)
qed

theorem remove_punctuation_fallback_witness:
  "lang_key ascii_ucd (lit ''en_US'') = lit ''en'' \<and>
   lit ''en'' \<notin> fst ` set PUNCTUATION_PATTERNS \<and>
   remove_punctuation ascii_ucd (lit ''no.'') (lit ''en_US'') = lit ''no''"
proof -
  have key: "lang_key ascii_ucd (lit ''en_US'') = lit ''en''"
    by (simp add: lang_key_eq) (simp add: lit_def py_lower_def is_ascii_def ascii_lower_def)
  have absent: "lit ''en'' \<notin> fst ` set PUNCTUATION_PATTERNS"
    by (simp add: PUNCTUATION_PATTERNS_def lit_def)
  from remove_punctuation_fallback [of ascii_ucd "lit ''en_US''" "lit ''no.''"] key absent
  have "remove_punctuation ascii_ucd (lit ''no.'') (lit ''en_US'') =
          filter (\<lambda>c. c \<notin> set punct_default) (lit ''no.'')"
    by simp
  then have "remove_punctuation ascii_ucd (lit ''no.'') (lit ''en_US'') = lit ''no''"
    by (simp add: lit_def punct_default_def)
  with key absent show ?thesis by simp
qed

text \<open>
  C9: every pattern of the table deletes every ASCII punctuation character, so the result
  of \<open>remove_punctuation\<close> contains none, whatever the language tag.
\<close>

theorem profiles_include_ascii_punctuation:
  "(\<forall>(k, p) \<in> set PUNCTUATION_PATTERNS. \<forall>c. ascii_punctuation c \<longrightarrow> re_sub p [] [c] = []) \<and>
   (\<forall>c \<in> set (remove_punctuation U text tag). \<not> ascii_punctuation c)"
proof
  show "\<forall>(k, p) \<in> set PUNCTUATION_PATTERNS. \<forall>c. ascii_punctuation c \<longrightarrow> re_sub p [] [c] = []"
    using default_in_zh default_in_ja default_in_ko
    by (auto simp: PUNCTUATION_PATTERNS_def re_sub_class ascii_punctuation_default)
  show "\<forall>c \<in> set (remove_punctuation U text tag). \<not> ascii_punctuation c"
    using default_in_profile by (auto simp: remove_punctuation_eq ascii_punctuation_default)
qed

theorem profiles_include_ascii_punctuation_witness:
  "ascii_punctuation 44 \<and> re_sub [(AnyOf punct_ja, One)] [] [44] = [] \<and>
   44 \<notin> set (remove_punctuation ascii_ucd (lit ''a,b'') (lit ''ja''))"
proof -
  have p: "ascii_punctuation 44" by (simp add: ascii_punctuation_def)
  have mem: "(lit ''ja'', [(AnyOf punct_ja, One)]) \<in> set PUNCTUATION_PATTERNS"
    by (simp add: PUNCTUATION_PATTERNS_def)
  note inst = profiles_include_ascii_punctuation [of ascii_ucd "lit ''a,b''" "lit ''ja''"]
  from inst mem p have "re_sub [(AnyOf punct_ja, One)] [] [44] = []" by blast
  moreover from inst p have "44 \<notin> set (remove_punctuation ascii_ucd (lit ''a,b'') (lit ''ja''))"
    by blast
  ultimately show ?thesis using p by simp
qed

section \<open>The digit-only filter\<close>

lemma replace_chr_filter: "py_replace_chr c [] s = filter (\<lambda>x. x \<noteq> c) s"
  by (induction s) (simp_all add: py_replace_chr_def)

lemma remove_digit_only_words_eq:
  "remove_digit_only_words s =
     (\<not> (filter (\<lambda>c. c \<noteq> 32) s \<noteq> [] \<and> list_all cp_isdigit (filter (\<lambda>c. c \<noteq> 32) s)))"
  by (simp add: remove_digit_only_words_def replace_chr_filter py_isdigit_def Let_def)

lemma in_ranges_covered:
  assumes "list_all (\<lambda>(lo, hi). list_ex (\<lambda>(lo', hi'). lo' \<le> lo \<and> hi \<le> hi') rs') rs"
    and "in_ranges rs c"
  shows "in_ranges rs' c"
proof -
  from assms(2) obtain lo hi where r: "(lo, hi) \<in> set rs" and c: "lo \<le> c" "c \<le> hi"
    unfolding in_ranges_def list_ex_iff by auto
  from assms(1) r obtain lo' hi' where r': "(lo', hi') \<in> set rs'" and b: "lo' \<le> lo" "hi \<le> hi'"
    unfolding list_all_iff list_ex_iff by fastforce
  from c b have "lo' \<le> c \<and> c \<le> hi'" by simp
  with r' show ?thesis unfolding in_ranges_def list_ex_iff by auto
qed

lemma decimal_ranges_covered:
  "list_all (\<lambda>(lo, hi). list_ex (\<lambda>(lo', hi'). lo' \<le> lo \<and> hi \<le> hi') digit_ranges)
     decimal_ranges"
  by (simp add: decimal_ranges_def digit_ranges_def)

lemma decimal_is_digit: "cp_isdecimal c \<Longrightarrow> cp_isdigit c"
  unfolding cp_isdecimal_def cp_isdigit_def
  by (rule in_ranges_covered [OF decimal_ranges_covered])

lemma ascii_digits:
  "c < 128 \<Longrightarrow> cp_isdigit c = (48 \<le> c \<and> c \<le> 57)"
  "c < 128 \<Longrightarrow> cp_isdecimal c = (48 \<le> c \<and> c \<le> 57)"
  by (auto simp: cp_isdigit_def cp_isdecimal_def in_ranges_def digit_ranges_def
      decimal_ranges_def)

text \<open>
  C2, as the code has it: for every string, \<open>remove_digit_only_words\<close> answers drop
  (\<open>False\<close>) exactly when the string without its space characters is non-empty and all
  its characters are digits in the sense of \<open>str.isdigit\<close>, and keep (\<open>True\<close>) otherwise.
  Every decimal digit character is such a digit, and so are characters that are not
  decimal digits: \<open>"123"\<close>, \<open>"12 3"\<close> and the superscript two (U+00B2) are dropped,
  \<open>"12a"\<close> and the empty string are kept.
\<close>

theorem digit_only_filter:
  "remove_digit_only_words s =
     (\<not> (filter (\<lambda>c. c \<noteq> 32) s \<noteq> [] \<and> list_all cp_isdigit (filter (\<lambda>c. c \<noteq> 32) s))) \<and>
   (cp_isdecimal c \<longrightarrow> cp_isdigit c) \<and>
   \<not> remove_digit_only_words (lit ''123'') \<and>
   \<not> remove_digit_only_words (lit ''12 3'') \<and>
   remove_digit_only_words (lit ''12a'') \<and>
   remove_digit_only_words [] \<and>
   \<not> remove_digit_only_words [0xB2]"
proof (intro conjI)
  show "remove_digit_only_words s =
     (\<not> (filter (\<lambda>c. c \<noteq> 32) s \<noteq> [] \<and> list_all cp_isdigit (filter (\<lambda>c. c \<noteq> 32) s)))"
    by (rule remove_digit_only_words_eq)
  show "cp_isdecimal c \<longrightarrow> cp_isdigit c"
    by (simp add: decimal_is_digit)
  show "\<not> remove_digit_only_words (lit ''123'')"
    by (simp add: remove_digit_only_words_eq lit_def ascii_digits)
  show "\<not> remove_digit_only_words (lit ''12 3'')"
    by (simp add: remove_digit_only_words_eq lit_def ascii_digits)
  show "remove_digit_only_words (lit ''12a'')"
    by (simp add: remove_digit_only_words_eq lit_def ascii_digits)
  show "remove_digit_only_words []"
    by (simp add: remove_digit_only_words_eq)
  show "\<not> remove_digit_only_words [0xB2]"
    by (simp add: remove_digit_only_words_eq cp_isdigit_def in_ranges_def digit_ranges_def)
qed

theorem digit_only_filter_witness:
  "cp_isdecimal 0x966 \<and> cp_isdigit 0x966 \<and>
   \<not> remove_digit_only_words [0x966, 32, 0x967] \<and>
   remove_digit_only_words (lit ''4 x'')"
proof -
  have dec: "cp_isdecimal 0x966"
    by (simp add: cp_isdecimal_def in_ranges_def decimal_ranges_def)
  from digit_only_filter [of "[0x966, 32, 0x967]" "0x966"] dec
  have dig: "cp_isdigit 0x966" by blast
  have "cp_isdigit 0x967"
    by (simp add: cp_isdigit_def in_ranges_def digit_ranges_def)
  with dig digit_only_filter [of "[0x966, 32, 0x967]" "0x966"]
  have drop: "\<not> remove_digit_only_words [0x966, 32, 0x967]" by simp
  from digit_only_filter [of "lit ''4 x''" "0x966"]
  have keep: "remove_digit_only_words (lit ''4 x'')"
    by (simp add: lit_def ascii_digits)
  from dec dig drop keep show ?thesis by blast
qed

theorem digit_only_not_decimal_counterexample:
  "filter (\<lambda>c. c \<noteq> 32) [0xB2] = [0xB2 :: codepoint] \<and>
   \<not> list_all cp_isdecimal [0xB2] \<and>
   \<not> remove_digit_only_words [0xB2] \<and>
   \<not> cp_isdecimal 0x2460 \<and>
   \<not> remove_digit_only_words [0x2460]"
  by (simp add: remove_digit_only_words_eq cp_isdigit_def cp_isdecimal_def in_ranges_def
      digit_ranges_def decimal_ranges_def)

section \<open>The bracket-content stripper\<close>

lemma remove_brackets_eq:
  "remove_brackets_content s =
     delete_line_spans 40 41 (delete_line_spans 123 125
       (delete_line_spans 60 62 (delete_line_spans 91 93 s)))"
  by (simp add: remove_brackets_content_def re_sub_line_spans)

text \<open>
  Within a line each of the four substitutions deletes the span from the first opening
  bracket to the nearest closing bracket of its kind and goes on after it, square
  brackets first, then angle, curly and round ones: \<open>"a [b] c [d] e"\<close> becomes
  \<open>"a  c  e"\<close>.
\<close>

lemma remove_brackets_content_scans:
  "remove_brackets_content s =
     delete_line_spans 40 41 (delete_line_spans 123 125
       (delete_line_spans 60 62 (delete_line_spans 91 93 s))) \<and>
   (a \<notin> set pre \<and> b \<notin> set mid \<and> 10 \<notin> set mid \<longrightarrow>
      delete_line_spans a b (pre @ a # mid @ b # post) = pre @ delete_line_spans a b post) \<and>
   remove_brackets_content (lit ''a [b] c [d] e'') = lit ''a  c  e''"
proof (intro conjI)
  show "remove_brackets_content s =
     delete_line_spans 40 41 (delete_line_spans 123 125
       (delete_line_spans 60 62 (delete_line_spans 91 93 s)))"
    by (rule remove_brackets_eq)
  show "a \<notin> set pre \<and> b \<notin> set mid \<and> 10 \<notin> set mid \<longrightarrow>
      delete_line_spans a b (pre @ a # mid @ b # post) = pre @ delete_line_spans a b post"
    by (simp add: delete_line_spans_first)
  show "remove_brackets_content (lit ''a [b] c [d] e'') = lit ''a  c  e''"
    by (simp add: remove_brackets_eq) (simp add: lit_def closes_on_line_def)
qed

text \<open>
  Brackets of different kinds are not matched against each other: in \<open>"<[>\n]"\<close> the
  square bracket stays in the first pass (a newline comes before its closer) and goes
  with the angle brackets in the second.
\<close>

lemma remove_brackets_content_mixed_kinds:
  "remove_brackets_content [60, 91, 62, 10, 93] = [10, 93]"
  by (simp add: remove_brackets_eq closes_on_line_def)

text \<open>
  C6: the claim has bracket-enclosed text removed from every string, by shortest match
  for each kind of bracket. The code does this within a line, as in the example of the
  claim, but not across a newline: \<open>"[a\nb]"\<close> comes back unchanged, where the same
  brackets around \<open>"a b"\<close> are removed with their content.
\<close>

theorem remove_brackets_content_newline:
  "remove_brackets_content [91, 97, 10, 98, 93] = [91, 97, 10, 98, 93] \<and>
   remove_brackets_content [91, 97, 32, 98, 93] = [] \<and>
   remove_brackets_content (lit ''a [b] c [d] e'') = lit ''a  c  e''"
  by (simp add: remove_brackets_eq) (simp add: lit_def closes_on_line_def)

section \<open>The generic pipeline\<close>

lemma text_normalize_str_lang: "\<exists>r. text_normalize U v (PyStr lc) cfg = Inr r"
  by (cases v) (simp_all add: Let_def)

lemma text_normalize_kept:
  "text_normalize U v lang cfg = Inr (Some t) \<Longrightarrow> t \<noteq> [] \<and> \<not> py_isspace t"
  by (cases v; cases lang) (auto simp: Let_def split: if_splits)

lemma text_normalize_not_str: "\<not> isinstance_str v \<Longrightarrow> text_normalize U v lang cfg = Inr None"
  by (cases v) simp_all

text \<open>
  C4: for every language tag and configuration, \<open>text_normalize\<close> returns the drop signal
  \<open>None\<close> for the empty string and for an input that is not a string; with a language
  tag that is a string it never raises; and a string it returns is non-empty and not
  all whitespace.
\<close>

theorem text_normalize_drop_signal:
  "text_normalize U (PyStr []) lang cfg = Inr None \<and>
   (\<not> isinstance_str v \<longrightarrow> text_normalize U v lang cfg = Inr None) \<and>
   (\<forall>e. text_normalize U v (PyStr lc) cfg \<noteq> Inl e) \<and>
   (\<forall>t. text_normalize U v lang cfg = Inr (Some t) \<longrightarrow> t \<noteq> [] \<and> \<not> py_isspace t)"
  using text_normalize_str_lang [of U v lc cfg] text_normalize_kept [of U v lang cfg]
  by (auto simp: text_normalize_not_str)

theorem text_normalize_drop_signal_witness:
  "\<not> isinstance_str PyNone \<and>
   text_normalize ascii_ucd PyNone (PyStr (lit ''en''))
     \<lparr>lower_case = True, remove_numbers = False, remove_brackets = False\<rparr> = Inr None \<and>
   text_normalize ascii_ucd (PyStr (lit ''Hello, WORLD!  123'')) (PyStr (lit ''en''))
     \<lparr>lower_case = True, remove_numbers = False, remove_brackets = False\<rparr> =
     Inr (Some (lit ''hello world 123'')) \<and>
   lit ''hello world 123'' \<noteq> [] \<and> \<not> py_isspace (lit ''hello world 123'')"
proof -
  let ?cfg = "\<lparr>lower_case = True, remove_numbers = False, remove_brackets = False\<rparr>"
  have run: "text_normalize ascii_ucd (PyStr (lit ''Hello, WORLD!  123'')) (PyStr (lit ''en'')) ?cfg =
      Inr (Some (lit ''hello world 123''))"
    by (simp add: remove_punctuation_eq remove_extra_whitespace_eq normalize_unicode_def)
      (simp add: lit_def is_ascii_def py_lower_def ascii_lower_def resolve_profile_def
        punct_default_def whitespace_normalize_def py_strip_def is_space_def py_isspace_def)
  note inst1 = text_normalize_drop_signal [of ascii_ucd "PyStr (lit ''en'')" ?cfg PyNone "lit ''en''"]
  note inst2 = text_normalize_drop_signal
    [of ascii_ucd "PyStr (lit ''en'')" ?cfg "PyStr (lit ''Hello, WORLD!  123'')" "lit ''en''"]
  have a: "\<not> isinstance_str PyNone" by simp
  from inst1 a have b: "text_normalize ascii_ucd PyNone (PyStr (lit ''en'')) ?cfg = Inr None"
    by blast
  from inst2 run have c: "lit ''hello world 123'' \<noteq> [] \<and> \<not> py_isspace (lit ''hello world 123'')"
    by blast
  from a b c run show ?thesis by blast
qed

section \<open>The batch adapters\<close>

lemma normalize_loop_result:
  assumes "list_all (\<lambda>(t, l). isinstance_str l) ps"
  shows "\<exists>out. normalize_loop U cfg acc ps = Inr (acc @ out) \<and> length out = length ps \<and>
           (\<forall>i<length ps. text_normalize U (fst (ps ! i)) (snd (ps ! i)) cfg =
                            Inr (if out ! i = [] then None else Some (out ! i)))"
  using assms
proof (induction ps arbitrary: acc)
  case Nil
  show ?case by simp
next
  case (Cons p ps)
  obtain t l where p: "p = (t, l)" by (cases p)
  from Cons.prems p obtain lc where l: "l = PyStr lc" by (cases l) simp_all
  from text_normalize_str_lang [of U t lc cfg] obtain r
    where r: "text_normalize U t (PyStr lc) cfg = Inr r" ..
  define v where "v = (case r of Some n \<Rightarrow> (if n \<noteq> [] then n else []) | None \<Rightarrow> [])"
  have rv: "r = (if v = [] then None else Some v)"
    using text_normalize_kept [of U t "PyStr lc" cfg] r by (cases r) (simp_all add: v_def)
  from Cons.prems have "list_all (\<lambda>(t, l). isinstance_str l) ps" by simp
  from Cons.IH [OF this, of "acc @ [v]"] obtain out
    where out: "normalize_loop U cfg (acc @ [v]) ps = Inr ((acc @ [v]) @ out)"
      and len: "length out = length ps"
      and each: "\<forall>i<length ps. text_normalize U (fst (ps ! i)) (snd (ps ! i)) cfg =
                            Inr (if out ! i = [] then None else Some (out ! i))"
    by blast
  have "normalize_loop U cfg acc (p # ps) = Inr (acc @ (v # out))"
    using out r by (simp add: p l v_def)
  moreover have "length (v # out) = length (p # ps)" using len by simp
  moreover have "\<forall>i<length (p # ps). text_normalize U (fst ((p # ps) ! i)) (snd ((p # ps) ! i)) cfg =
                            Inr (if (v # out) ! i = [] then None else Some ((v # out) ! i))"
  proof (intro allI impI)
    fix i assume "i < length (p # ps)"
    then show "text_normalize U (fst ((p # ps) ! i)) (snd ((p # ps) ! i)) cfg =
                            Inr (if (v # out) ! i = [] then None else Some ((v # out) ! i))"
      using each r rv by (cases i) (simp_all add: p l)
  qed
  ultimately show ?case by blast
qed

lemma clean_loop_map:
  "clean_loop acc ts = acc @ map (\<lambda>t. normalize_vaani_transcript t False) ts"
  by (induction ts arbitrary: acc) (simp_all add: Let_def)

text \<open>
  The generic adapter raises KeyError on a batch without the text column, and
  AttributeError at a record with text whose language tag is not a string.
\<close>

lemma batch_normalize_text_no_text_column:
  "batch text_column = None \<Longrightarrow>
   batch_normalize_text U batch text_column language_column cfg = Inl KeyError"
  by (simp add: batch_normalize_text_def)

lemma batch_normalize_text_language_None:
  "batch_normalize_text U [''text'' \<mapsto> [PyStr [97]], ''language'' \<mapsto> [PyNone]]
     ''text'' ''language'' cfg = Inl AttributeError"
  by (simp add: batch_normalize_text_def Let_def)

text \<open>
  C3: for a batch whose columns all have length \<open>N\<close>, with a text column (and language
  tags that are strings, where there is a language column), both batch adapters return the
  batch with a text column of length \<open>N\<close>, in the same order. In the generic adapter the
  string at position \<open>i\<close> is empty exactly when \<open>text_normalize\<close> dropped record \<open>i\<close>, and
  is the normalized text otherwise; in the annotation adapter it is the result of
  \<open>normalize_vaani_transcript\<close>, empty for a record with no content. No position is
  removed.
\<close>

theorem batch_adapters_keep_length:
  assumes cols: "\<And>c vs. batch c = Some vs \<Longrightarrow> length vs = N"
    and texts: "batch text_column = Some texts"
    and langs: "\<And>ls. batch language_column = Some ls \<Longrightarrow> list_all isinstance_str ls"
  shows "(\<exists>out. batch_normalize_text U batch text_column language_column cfg =
                  Inr (batch(text_column \<mapsto> map PyStr out)) \<and>
                length out = N \<and>
                (\<forall>i<N. text_normalize U (texts ! i)
                          ((case batch language_column of
                              Some ls \<Rightarrow> ls
                            | None \<Rightarrow> replicate N (PyStr (lit ''en''))) ! i) cfg =
                        Inr (if out ! i = [] then None else Some (out ! i)))) \<and>
         (\<exists>out. batch_clean_vaani_transcripts batch text_column =
                  Inr (batch(text_column \<mapsto> map PyStr out)) \<and>
                length out = N \<and>
                (\<forall>i<N. out ! i = normalize_vaani_transcript (texts ! i) False))"
proof
  define languages where
    "languages = (case batch language_column of
                    Some ls \<Rightarrow> ls
                  | None \<Rightarrow> replicate N (PyStr (lit ''en'')))"
  have n: "length texts = N" using cols texts by blast
  have ln: "length languages = N"
    using cols by (auto simp: languages_def split: option.splits)
  have ls: "list_all isinstance_str languages"
    using langs by (auto simp: languages_def list_all_iff split: option.splits)
  have "list_all (\<lambda>(t, l). isinstance_str l) (zip texts languages)"
    using ls by (auto simp: list_all_iff dest: set_zip_rightD)
  from normalize_loop_result [OF this, of U cfg "[]"] obtain out
    where out: "normalize_loop U cfg [] (zip texts languages) = Inr out"
      and len: "length out = length (zip texts languages)"
      and each: "\<forall>i<length (zip texts languages).
                   text_normalize U (fst (zip texts languages ! i)) (snd (zip texts languages ! i)) cfg =
                     Inr (if out ! i = [] then None else Some (out ! i))"
    by auto
  have "batch_normalize_text U batch text_column language_column cfg =
          Inr (batch(text_column \<mapsto> map PyStr out))"
    using out texts n
    by (simp add: batch_normalize_text_def languages_def split: option.splits)
  moreover have "length out = N" using len n ln by simp
  moreover have "\<forall>i<N. text_normalize U (texts ! i) (languages ! i) cfg =
                        Inr (if out ! i = [] then None else Some (out ! i))"
    using each n ln by simp
  ultimately show "\<exists>out. batch_normalize_text U batch text_column language_column cfg =
                  Inr (batch(text_column \<mapsto> map PyStr out)) \<and>
                length out = N \<and>
                (\<forall>i<N. text_normalize U (texts ! i)
                          ((case batch language_column of
                              Some ls \<Rightarrow> ls
                            | None \<Rightarrow> replicate N (PyStr (lit ''en''))) ! i) cfg =
                        Inr (if out ! i = [] then None else Some (out ! i)))"
    unfolding languages_def by blast
  show "\<exists>out. batch_clean_vaani_transcripts batch text_column =
                  Inr (batch(text_column \<mapsto> map PyStr out)) \<and>
                length out = N \<and>
                (\<forall>i<N. out ! i = normalize_vaani_transcript (texts ! i) False)"
  proof (intro exI conjI)
    show "batch_clean_vaani_transcripts batch text_column =
            Inr (batch(text_column \<mapsto>
                   map PyStr (map (\<lambda>t. normalize_vaani_transcript t False) texts)))"
      using texts by (simp add: batch_clean_vaani_transcripts_def clean_loop_map)
    show "length (map (\<lambda>t. normalize_vaani_transcript t False) texts) = N"
      using n by simp
    show "\<forall>i<N. map (\<lambda>t. normalize_vaani_transcript t False) texts ! i =
                  normalize_vaani_transcript (texts ! i) False"
      using n by simp
  qed
qed


theorem batch_adapters_keep_length_witness:
  "(\<exists>out. batch_normalize_text ascii_ucd sample_batch ''text'' ''language'' sample_config =
            Inr (sample_batch(''text'' \<mapsto> map PyStr out)) \<and> length out = 3) \<and>
   (\<exists>out. batch_clean_vaani_transcripts sample_batch ''text'' =
            Inr (sample_batch(''text'' \<mapsto> map PyStr out)) \<and> length out = 3) \<and>
   batch_normalize_text ascii_ucd sample_batch ''text'' ''language'' sample_config =
     Inr (sample_batch(''text'' \<mapsto> [PyStr (lit ''hi you''), PyStr [], PyStr []]))"
proof -
  have cols: "\<And>c vs. sample_batch c = Some vs \<Longrightarrow> length vs = 3"
    by (auto simp: sample_batch_def split: if_splits)
  have texts: "sample_batch ''text'' =
      Some [PyStr (lit ''Hi, you''), PyNone, PyStr (lit ''42'')]"
    by (simp add: sample_batch_def)
  have langs: "\<And>ls. sample_batch ''language'' = Some ls \<Longrightarrow> list_all isinstance_str ls"
    by (auto simp: sample_batch_def)
  note inst = batch_adapters_keep_length [of sample_batch 3 "''text''" _ "''language''"
      ascii_ucd sample_config]
  have first: "text_normalize ascii_ucd (PyStr (lit ''Hi, you'')) (PyStr (lit ''en'')) sample_config =
      Inr (Some (lit ''hi you''))"
    by (simp add: sample_config_def Let_def remove_punctuation_eq remove_extra_whitespace_eq
        remove_digit_only_words_eq normalize_unicode_def lit_def is_ascii_def py_lower_def
        ascii_lower_def resolve_profile_def punct_default_def whitespace_normalize_def
        py_strip_def is_space_def py_isspace_def ascii_digits)
  have third: "text_normalize ascii_ucd (PyStr (lit ''42'')) (PyStr (lit ''en'')) sample_config =
      Inr None"
    by (simp add: sample_config_def Let_def remove_punctuation_eq remove_extra_whitespace_eq
        remove_digit_only_words_eq normalize_unicode_def lit_def is_ascii_def py_lower_def
        ascii_lower_def resolve_profile_def punct_default_def whitespace_normalize_def
        py_strip_def is_space_def py_isspace_def ascii_digits)
  have run: "batch_normalize_text ascii_ucd sample_batch ''text'' ''language'' sample_config =
     Inr (sample_batch(''text'' \<mapsto> [PyStr (lit ''hi you''), PyStr [], PyStr []]))"
    using first third
    by (simp add: batch_normalize_text_def sample_batch_def del: text_normalize.simps(1))
  from inst cols texts langs run show ?thesis by blast
qed

end
